theory Spec2Isabelle
  imports Complex_Main "HOL-Library.AList" "HOL-Library.Word"
begin

section \<open>MiniVectorDatabase: data model\<close>

text \<open>
  The embedding follows \<^verbatim>\<open>VectorDatabase.cpp\<close>.

  \<^item> \<^verbatim>\<open>std::string\<close> is \<open>string\<close> (a list of 8-bit characters).
  \<^item> \<^verbatim>\<open>size_t\<close> values are natural numbers; sizes of containers cannot wrap, and the one
    product the code forms (\<^verbatim>\<open>dimension_ * sizeof(float)\<close>) has its reduction modulo
    \<open>2 ^ 64\<close> written out.
  \<^item> The component type of a vector is a type parameter \<open>'f\<close>. The store operations
    (insert, remove, ...) never look at a component and are polymorphic. The distance
    computations and the two searches instantiate \<open>'f\<close> with \<open>real\<close>: arithmetic is
    exact, so rounding, overflow to infinity and NaN of \<^verbatim>\<open>float\<close> are outside the
    model. The persistence codec instantiates \<open>'f\<close> with \<open>32 word\<close>, the bit pattern
    of a \<^verbatim>\<open>float\<close>, which is what \<^verbatim>\<open>save\<close> and \<^verbatim>\<open>load\<close> copy byte by byte.
  \<^item> \<^verbatim>\<open>std::unordered_map\<close> is an association list with distinct keys, in the
    iteration order of the table. The standard leaves that order open; assignment to a
    key that is present keeps its place, and the model puts a new key at the end.
    Theorems about scans hold for every order.
  \<^item> The mutex serialises the operations; the model is sequential.
\<close>

datatype DistanceMetric = EUCLIDEAN | COSINE | MANHATTAN | DOT_PRODUCT

datatype IndexType = LINEAR | KD_TREE | HASH_TABLE

record VectorDatabaseConfig =
  distance_metric :: DistanceMetric
  index_type :: IndexType
  max_vectors :: nat
  thread_count :: nat

record 'f SearchResult =
  result_id :: string
  distance :: real
  vector :: "'f list"

record 'f VectorDatabase =
  dimension :: nat
  config :: VectorDatabaseConfig
  vectors :: "(string \<times> 'f list) list"

text \<open>
  Faults: what the C++ program does instead of returning. \<open>InvalidArgument\<close> is the
  exception of the constructors; \<open>EmptyHeapTop\<close> is \<^verbatim>\<open>pq.top()\<close> on an empty
  \<^verbatim>\<open>std::priority_queue\<close> and \<open>IndeterminateValue\<close> is the use of a \<^verbatim>\<open>size_t\<close> that a
  failed \<^verbatim>\<open>read\<close> left uninitialised; \<open>BufferOverread\<close> is \<^verbatim>\<open>write\<close> reading past the
  end of a vector's buffer (all three undefined behaviour).
\<close>

datatype fault = InvalidArgument | EmptyHeapTop | IndeterminateValue | BufferOverread

definition VectorDatabase_new ::
  "nat \<Rightarrow> VectorDatabaseConfig \<Rightarrow> fault + 'f VectorDatabase" where
  "VectorDatabase_new d cfg =
     (if d = 0 then Inl InvalidArgument
      else Inr \<lparr>dimension = d, config = cfg, vectors = []\<rparr>)"

section \<open>Metric evaluator\<close>

text \<open>\<^verbatim>\<open>std::numeric_limits<float>::max()\<close>, the largest finite binary32 value.\<close>

definition FLT_MAX :: real where
  "FLT_MAX = (2 - 1 / 2 ^ 23) * 2 ^ 127"

definition calculateEuclideanDistance :: "real list \<Rightarrow> real list \<Rightarrow> real" where
  "calculateEuclideanDistance a b =
     (if length a \<noteq> length b then FLT_MAX
      else sqrt (fold (\<lambda>(x, y) sum. sum + (x - y) * (x - y)) (zip a b) 0))"

text \<open>The accumulator of the cosine loop: dot product, squared norm of a, of b.\<close>

definition cosine_step :: "real \<times> real \<Rightarrow> real \<times> real \<times> real \<Rightarrow> real \<times> real \<times> real" where
  "cosine_step = (\<lambda>(x, y) (dot_product, norm_a, norm_b).
     (dot_product + x * y, norm_a + x * x, norm_b + y * y))"

definition calculateCosineDistance :: "real list \<Rightarrow> real list \<Rightarrow> real" where
  "calculateCosineDistance a b =
     (if length a \<noteq> length b then FLT_MAX
      else case fold cosine_step (zip a b) (0, 0, 0) of
        (dot_product, norm_a, norm_b) \<Rightarrow>
          if norm_a = 0 \<or> norm_b = 0 then 1
          else 1 - dot_product / (sqrt norm_a * sqrt norm_b))"

definition calculateManhattanDistance :: "real list \<Rightarrow> real list \<Rightarrow> real" where
  "calculateManhattanDistance a b =
     (if length a \<noteq> length b then FLT_MAX
      else fold (\<lambda>(x, y) sum. sum + \<bar>x - y\<bar>) (zip a b) 0)"

definition calculateDotProductDistance :: "real list \<Rightarrow> real list \<Rightarrow> real" where
  "calculateDotProductDistance a b =
     (if length a \<noteq> length b then FLT_MAX
      else - fold (\<lambda>(x, y) dot_product. dot_product + x * y) (zip a b) 0)"

text \<open>
  The switch on \<^verbatim>\<open>config_.distance_metric\<close>; its default branch is unreachable for the
  four values of the enumeration.
\<close>

fun calculateDistance :: "DistanceMetric \<Rightarrow> real list \<Rightarrow> real list \<Rightarrow> real" where
  "calculateDistance EUCLIDEAN a b = calculateEuclideanDistance a b"
| "calculateDistance COSINE a b = calculateCosineDistance a b"
| "calculateDistance MANHATTAN a b = calculateManhattanDistance a b"
| "calculateDistance DOT_PRODUCT a b = calculateDotProductDistance a b"

definition validateVector :: "'f VectorDatabase \<Rightarrow> 'f list \<Rightarrow> bool" where
  "validateVector db v = (length v = dimension db)"

section \<open>Vector store\<close>

definition size_db :: "'f VectorDatabase \<Rightarrow> nat" where
  "size_db db = length (vectors db)"

text \<open>
  \<^verbatim>\<open>insert\<close>: the dimension test, the empty-identifier test, then (under the lock) the
  capacity test \<^verbatim>\<open>vectors_.size() >= config_.max_vectors\<close>, then \<^verbatim>\<open>vectors_[id] = vector\<close>.
  The result is the returned flag and the store after the call.
\<close>

definition insert_db ::
  "string \<Rightarrow> 'f list \<Rightarrow> 'f VectorDatabase \<Rightarrow> bool \<times> 'f VectorDatabase" where
  "insert_db ident v db =
     (if \<not> validateVector db v then (False, db)
      else if ident = [] then (False, db)
      else if size_db db \<ge> max_vectors (config db) then (False, db)
      else (True, db\<lparr>vectors := AList.update ident v (vectors db)\<rparr>))"

text \<open>
  \<^verbatim>\<open>insert_batch\<close> takes a \<^verbatim>\<open>std::map\<close>: an association list with distinct keys, in the
  order the map is iterated. The first loop returns at the first invalid pair.
\<close>

fun batch_valid :: "'f VectorDatabase \<Rightarrow> (string \<times> 'f list) list \<Rightarrow> bool" where
  "batch_valid db [] = True"
| "batch_valid db ((ident, v) # rest) =
     (if \<not> validateVector db v \<or> ident = [] then False else batch_valid db rest)"

definition insert_batch ::
  "(string \<times> 'f list) list \<Rightarrow> 'f VectorDatabase \<Rightarrow> bool \<times> 'f VectorDatabase" where
  "insert_batch batch db =
     (if \<not> batch_valid db batch then (False, db)
      else if size_db db + length batch > max_vectors (config db) then (False, db)
      else (True, db\<lparr>vectors := fold (\<lambda>(ident, v). AList.update ident v) batch (vectors db)\<rparr>))"

definition clear_db :: "'f VectorDatabase \<Rightarrow> 'f VectorDatabase" where
  "clear_db db = db\<lparr>vectors := []\<rparr>"

definition get_vector :: "string \<Rightarrow> 'f VectorDatabase \<Rightarrow> 'f list" where
  "get_vector ident db = (case map_of (vectors db) ident of Some v \<Rightarrow> v | None \<Rightarrow> [])"

definition exists_db :: "string \<Rightarrow> 'f VectorDatabase \<Rightarrow> bool" where
  "exists_db ident db = (map_of (vectors db) ident \<noteq> None)"

definition remove_db :: "string \<Rightarrow> 'f VectorDatabase \<Rightarrow> bool \<times> 'f VectorDatabase" where
  "remove_db ident db =
     (case map_of (vectors db) ident of
        None \<Rightarrow> (False, db)
      | Some v \<Rightarrow> (True, db\<lparr>vectors := AList.delete ident (vectors db)\<rparr>))"

definition get_all_ids :: "'f VectorDatabase \<Rightarrow> string list" where
  "get_all_ids db = map fst (vectors db)"

section \<open>Query engine\<close>

text \<open>
  \<^verbatim>\<open>std::priority_queue<SearchResult, std::vector<SearchResult>, std::greater<SearchResult>>\<close>:
  with \<^verbatim>\<open>std::greater\<close> (that is, \<^verbatim>\<open>operator>\<close> on the distance) the top of the queue is
  an element of least distance. The queue is a list ordered by distance, the top its
  head; which of several elements of the same distance is on top is left open by the
  standard, and the model takes the one that entered last. A read of the top of an
  empty queue is \<open>None\<close>.
\<close>

definition pq_emplace :: "'f SearchResult \<Rightarrow> 'f SearchResult list \<Rightarrow> 'f SearchResult list" where
  "pq_emplace r pq = insort_key distance r pq"

definition pq_top :: "'f SearchResult list \<Rightarrow> 'f SearchResult option" where
  "pq_top pq = (case pq of [] \<Rightarrow> None | t # _ \<Rightarrow> Some t)"

definition pq_pop :: "'f SearchResult list \<Rightarrow> 'f SearchResult list" where
  "pq_pop pq = drop 1 pq"

text \<open>The loop over \<^verbatim>\<open>vectors_\<close> in \<^verbatim>\<open>search\<close>, in the iteration order of the table.\<close>

fun search_scan ::
  "DistanceMetric \<Rightarrow> real list \<Rightarrow> nat \<Rightarrow> (string \<times> real list) list
     \<Rightarrow> real SearchResult list \<Rightarrow> fault + real SearchResult list" where
  "search_scan m query k [] pq = Inr pq"
| "search_scan m query k ((ident, v) # rest) pq =
     (let d = calculateDistance m query v in
      if length pq < k
      then search_scan m query k rest
             (pq_emplace \<lparr>result_id = ident, distance = d, vector = v\<rparr> pq)
      else (case pq_top pq of
              None \<Rightarrow> Inl EmptyHeapTop
            | Some t \<Rightarrow>
                if d < distance t
                then search_scan m query k rest
                       (pq_emplace \<lparr>result_id = ident, distance = d, vector = v\<rparr> (pq_pop pq))
                else search_scan m query k rest pq))"

text \<open>
  The loop \<^verbatim>\<open>while (!pq.empty()) { results.push_back(pq.top()); pq.pop(); }\<close>.
\<close>

fun pq_drain :: "'f SearchResult list \<Rightarrow> 'f SearchResult list \<Rightarrow> 'f SearchResult list" where
  "pq_drain [] results = results"
| "pq_drain (t # pq) results = pq_drain pq (results @ [t])"

text \<open>
  \<^verbatim>\<open>std::sort\<close> with the comparison \<^verbatim>\<open>a.distance < b.distance\<close> is \<open>sort_key distance\<close>
  (the order it gives to results of equal distance is one of those \<^verbatim>\<open>std::sort\<close> may give).
\<close>

definition search ::
  "real list \<Rightarrow> nat \<Rightarrow> real VectorDatabase \<Rightarrow> fault + real SearchResult list" where
  "search query k db =
     (if \<not> validateVector db query then Inr []
      else if vectors db = [] then Inr []
      else case search_scan (distance_metric (config db)) query k (vectors db) [] of
             Inl e \<Rightarrow> Inl e
           | Inr pq \<Rightarrow> Inr (sort_key distance (pq_drain pq [])))"

fun radius_scan ::
  "DistanceMetric \<Rightarrow> real list \<Rightarrow> real \<Rightarrow> (string \<times> real list) list \<Rightarrow> real SearchResult list" where
  "radius_scan m query radius [] = []"
| "radius_scan m query radius ((ident, v) # rest) =
     (let d = calculateDistance m query v in
      if d \<le> radius
      then \<lparr>result_id = ident, distance = d, vector = v\<rparr> # radius_scan m query radius rest
      else radius_scan m query radius rest)"

definition search_radius ::
  "real list \<Rightarrow> real \<Rightarrow> real VectorDatabase \<Rightarrow> real SearchResult list" where
  "search_radius query radius db =
     (if \<not> validateVector db query then []
      else sort_key distance
             (radius_scan (distance_metric (config db)) query radius (vectors db)))"

section \<open>Persistence codec\<close>

text \<open>
  A file is a list of bytes (\<open>char\<close> is 8 bits wide). A \<^verbatim>\<open>size_t\<close> is written as its
  8 bytes and a \<^verbatim>\<open>float\<close> as its 4 bytes, least significant first (the layout of the
  64-bit little-endian platforms the format is native to).
\<close>

type_synonym byte = char

type_synonym float32 = "32 word"

fun le_bytes :: "nat \<Rightarrow> nat \<Rightarrow> byte list" where
  "le_bytes 0 n = []"
| "le_bytes (Suc k) n = char_of (n mod 256) # le_bytes k (n div 256)"

fun le_nat :: "byte list \<Rightarrow> nat" where
  "le_nat [] = 0"
| "le_nat (b # bs) = of_char b + 256 * le_nat bs"

definition size_t_bytes :: "nat \<Rightarrow> byte list" where
  "size_t_bytes n = le_bytes 8 n"

definition float_bytes :: "float32 \<Rightarrow> byte list" where
  "float_bytes w = le_bytes 4 (unat w)"

definition bytes_float :: "byte list \<Rightarrow> float32" where
  "bytes_float bs = of_nat (le_nat bs)"

text \<open>
  The file system: the content of each path that can be opened for reading, and the
  paths that can be opened for writing. A write to an open file succeeds (a full disk is
  outside the model).
\<close>

record filesystem =
  files :: "string \<Rightarrow> byte list option"
  writable :: "string \<Rightarrow> bool"

text \<open>
  \<^verbatim>\<open>dimension_ * sizeof(float)\<close>, a product of \<^verbatim>\<open>size_t\<close> values.
\<close>

definition vector_byte_count :: "nat \<Rightarrow> nat" where
  "vector_byte_count d = (d * 4) mod 2 ^ 64"

text \<open>
  The loop of \<^verbatim>\<open>save\<close> over \<^verbatim>\<open>vectors_\<close>: the identifier's length, its bytes, then
  \<^verbatim>\<open>dimension_ * sizeof(float)\<close> bytes starting at \<^verbatim>\<open>pair.second.data()\<close>.
\<close>

fun write_records :: "nat \<Rightarrow> (string \<times> float32 list) list \<Rightarrow> fault + byte list" where
  "write_records d [] = Inr []"
| "write_records d ((ident, v) # rest) =
     (if 4 * length v < vector_byte_count d then Inl BufferOverread
      else case write_records d rest of
             Inl e \<Rightarrow> Inl e
           | Inr bs \<Rightarrow>
               Inr (size_t_bytes (length ident) @ ident
                    @ take (vector_byte_count d) (concat (map float_bytes v)) @ bs))"

definition save ::
  "string \<Rightarrow> filesystem \<Rightarrow> float32 VectorDatabase \<Rightarrow> fault + (bool \<times> filesystem)" where
  "save filepath fs db =
     (if \<not> writable fs filepath then Inr (False, fs)
      else case write_records (dimension db) (vectors db) of
             Inl e \<Rightarrow> Inl e
           | Inr body \<Rightarrow>
               Inr (True, fs\<lparr>files := (files fs)(filepath \<mapsto>
                      size_t_bytes (dimension db) @ size_t_bytes (size_db db) @ body)\<rparr>))"

text \<open>
  \<^verbatim>\<open>std::ifstream\<close>: the bytes not yet read and the \<^verbatim>\<open>good()\<close> flag. \<^verbatim>\<open>read(buf, n)\<close>
  on a good stream with \<open>n\<close> bytes left extracts them; with fewer left it extracts
  what there is and sets \<^verbatim>\<open>eofbit | failbit\<close>; on a stream that is not good it extracts
  nothing. The first component is what was stored into the buffer.
\<close>

record ifstream =
  pending :: "byte list"
  good :: bool

definition stream_read :: "nat \<Rightarrow> ifstream \<Rightarrow> byte list \<times> ifstream" where
  "stream_read n s =
     (if \<not> good s then ([], s)
      else if n \<le> length (pending s) then (take n (pending s), s\<lparr>pending := drop n (pending s)\<rparr>)
      else (pending s, \<lparr>pending = [], good = False\<rparr>))"

text \<open>
  A \<^verbatim>\<open>size_t\<close> declared without an initialiser and filled by \<^verbatim>\<open>read\<close>: it has a value
  when all 8 bytes were extracted and is indeterminate (\<open>None\<close>) otherwise.
\<close>

definition read_size_t :: "ifstream \<Rightarrow> nat option \<times> ifstream" where
  "read_size_t s =
     (case stream_read 8 s of
        (bs, s') \<Rightarrow> (if length bs = 8 then Some (le_nat bs) else None, s'))"

text \<open>The \<open>n\<close> floats held by a buffer of \<open>4 * n\<close> bytes.\<close>

primrec floats_of :: "nat \<Rightarrow> byte list \<Rightarrow> float32 list" where
  "floats_of 0 bs = []"
| "floats_of (Suc n) bs = bytes_float (take 4 bs) # floats_of n (drop 4 bs)"

text \<open>
  The loop of \<^verbatim>\<open>load\<close>, by the number of records still to read. The identifier is a
  string of \<^verbatim>\<open>id_length\<close> zero characters and the vector is \<^verbatim>\<open>dimension_\<close> zero floats,
  each overwritten from its start by the bytes the \<^verbatim>\<open>read\<close> extracted. (The allocation
  of either is taken to succeed.)
\<close>

primrec load_records ::
  "nat \<Rightarrow> nat \<Rightarrow> ifstream \<Rightarrow> (string \<times> float32 list) list
     \<Rightarrow> fault + (ifstream \<times> (string \<times> float32 list) list)" where
  "load_records 0 d s vs = Inr (s, vs)"
| "load_records (Suc n) d s vs =
     (case read_size_t s of
        (None, s1) \<Rightarrow> Inl IndeterminateValue
      | (Some id_length, s1) \<Rightarrow>
          (case stream_read id_length s1 of
             (id_bytes, s2) \<Rightarrow>
               (case stream_read (vector_byte_count d) s2 of
                  (v_bytes, s3) \<Rightarrow>
                    load_records n d s3
                      (AList.update
                         (id_bytes @ replicate (id_length - length id_bytes) (CHR 0x00))
                         (floats_of d (v_bytes @ replicate (4 * d - length v_bytes) (CHR 0x00)))
                         vs))))"

definition load ::
  "string \<Rightarrow> filesystem \<Rightarrow> float32 VectorDatabase \<Rightarrow> fault + (bool \<times> float32 VectorDatabase)" where
  "load filepath fs db =
     (case files fs filepath of
        None \<Rightarrow> Inr (False, db)
      | Some content \<Rightarrow>
          (case read_size_t \<lparr>pending = content, good = True\<rparr> of
             (None, s1) \<Rightarrow> Inl IndeterminateValue
           | (Some file_dimension, s1) \<Rightarrow>
               if file_dimension \<noteq> dimension db then Inr (False, db)
               else (case read_size_t s1 of
                       (None, s2) \<Rightarrow> Inl IndeterminateValue
                     | (Some vector_count, s2) \<Rightarrow>
                         (case load_records vector_count (dimension db) s2 [] of
                            Inl e \<Rightarrow> Inl e
                          | Inr (s3, vs) \<Rightarrow> Inr (good s3, db\<lparr>vectors := vs\<rparr>)))))"

section \<open>The specification's words, and inputs for the examples\<close>

text \<open>
  \<^verbatim>\<open>VectorDatabaseConfig() = default\<close>: the member initialisers of the structure. The
  number of hardware threads is a parameter.
\<close>

definition default_config :: "nat \<Rightarrow> VectorDatabaseConfig" where
  "default_config hw =
     \<lparr>distance_metric = EUCLIDEAN, index_type = LINEAR, max_vectors = 100000, thread_count = hw\<rparr>"

text \<open>
  The size after a batch insert in the words of the specification: the existing entries
  whose identifiers are not in the batch, plus all batch entries.
\<close>

definition post_insert_size :: "'f VectorDatabase \<Rightarrow> (string \<times> 'f list) list \<Rightarrow> nat" where
  "post_insert_size db batch =
     length (filter (\<lambda>(ident, v). ident \<notin> set (map fst batch)) (vectors db)) + length batch"

text \<open>A store of dimension 1 and capacity 1 that holds one record, \<open>a\<close>.\<close>

definition full_store :: "real VectorDatabase" where
  "full_store = \<lparr>dimension = 1, config = (default_config 1)\<lparr>max_vectors := 1\<rparr>,
                 vectors = [(''a'', [1])]\<rparr>"

text \<open>
  Three records at Euclidean distances 0, 2 and 1 from the origin, iterated in this
  order.
\<close>

definition scan_store :: "real VectorDatabase" where
  "scan_store = \<lparr>dimension = 3, config = default_config 1,
                 vectors = [(''a'', [0, 0, 0]), (''c'', [2, 0, 0]), (''b'', [1, 0, 0])]\<rparr>"

text \<open>The specification's radius scenario: dimension 2, Manhattan metric.\<close>

definition plane_store :: "real VectorDatabase" where
  "plane_store = \<lparr>dimension = 2, config = (default_config 1)\<lparr>distance_metric := MANHATTAN\<rparr>,
                  vectors = [(''p'', [0, 0]), (''q'', [3, 4])]\<rparr>"

text \<open>
  The binary layout in the words of the specification: the dimension, the record count,
  then for each record the length of the identifier, its bytes and the floats of the
  vector.
\<close>

definition record_layout :: "string \<times> float32 list \<Rightarrow> byte list" where
  "record_layout = (\<lambda>(ident, v). size_t_bytes (length ident) @ ident @ concat (map float_bytes v))"

definition file_layout :: "float32 VectorDatabase \<Rightarrow> byte list" where
  "file_layout db = size_t_bytes (dimension db) @ size_t_bytes (size_db db)
                    @ concat (map record_layout (vectors db))"

text \<open>
  The invariant of the store: a positive dimension (the constructors refuse 0), one
  record per identifier (it is a map) and every stored vector of the store's dimension.
  It holds of a new store and every operation keeps it (\<open>store_inv_new\<close>,
  \<open>store_inv_preserved\<close>).
\<close>

definition store_inv :: "'f VectorDatabase \<Rightarrow> bool" where
  "store_inv db = (0 < dimension db \<and> distinct (map fst (vectors db))
                   \<and> list_all (\<lambda>(ident, v). length v = dimension db) (vectors db))"

text \<open>
  What the machine guarantees and natural numbers do not: every size the program holds in
  a \<^verbatim>\<open>size_t\<close> is below \<open>2 ^ 64\<close>, and the buffer of a stored vector, 4 bytes for each
  float, fits the address space.
\<close>

definition fits_size_t :: "'f VectorDatabase \<Rightarrow> bool" where
  "fits_size_t db = (dimension db < 2 ^ 64 \<and> length (vectors db) < 2 ^ 64
                     \<and> list_all (\<lambda>(ident, v). length ident < 2 ^ 64 \<and> 4 * length v < 2 ^ 64)
                          (vectors db))"

text \<open>
  Inputs for the persistence examples: a store of dimension 1 and capacity 1 holding the
  record \<open>z\<close> (the float 1.0), a store of dimension 1 with two records (1.0 and 2.0), a
  file that ends after the identifier of its only record, and a file system with one
  file.
\<close>

definition word_store :: "float32 VectorDatabase" where
  "word_store = \<lparr>dimension = 1, config = (default_config 1)\<lparr>max_vectors := 1\<rparr>,
                 vectors = [(''z'', [0x3F800000])]\<rparr>"

definition two_records :: "float32 VectorDatabase" where
  "two_records = \<lparr>dimension = 1, config = default_config 1,
                  vectors = [(''a'', [0x3F800000]), (''b'', [0x40000000])]\<rparr>"

definition truncated_file :: "byte list" where
  "truncated_file = size_t_bytes 1 @ size_t_bytes 1 @ size_t_bytes 1 @ ''x''"

definition disk :: "byte list \<Rightarrow> filesystem" where
  "disk content = \<lparr>files = Map.empty(''store.bin'' \<mapsto> content), writable = (\<lambda>p. True)\<rparr>"

text \<open>A store of dimension 2.\<close>

definition wide_store :: "float32 VectorDatabase" where
  "wide_store = \<lparr>dimension = 2, config = default_config 1,
                 vectors = [(''w'', [0, 0x3F800000])]\<rparr>"

section \<open>Properties of the metric evaluator\<close>

text \<open>
  C8. For each of the four metrics, and for the dispatching function under every metric
  selector, two vectors of unequal lengths are at distance \<open>FLT_MAX\<close>: the length
  test comes first and returns the sentinel, so the computation yields a value for every
  pair of inputs.
\<close>

theorem distance_length_mismatch_sentinel:
  assumes "length a \<noteq> length b"
  shows "calculateEuclideanDistance a b = FLT_MAX
       \<and> calculateCosineDistance a b = FLT_MAX
       \<and> calculateManhattanDistance a b = FLT_MAX
       \<and> calculateDotProductDistance a b = FLT_MAX
       \<and> calculateDistance m a b = FLT_MAX"
proof -
  have four: "calculateEuclideanDistance a b = FLT_MAX"
    "calculateCosineDistance a b = FLT_MAX"
    "calculateManhattanDistance a b = FLT_MAX"
    "calculateDotProductDistance a b = FLT_MAX"
    using assms
    by (simp_all add: calculateEuclideanDistance_def calculateCosineDistance_def
        calculateManhattanDistance_def calculateDotProductDistance_def)
  then have "calculateDistance m a b = FLT_MAX"
    by (cases m) simp_all
  with four show ?thesis by simp
qed

theorem distance_length_mismatch_sentinel_witness:
  "length [1, 2 :: real] \<noteq> length [1 :: real]
   \<and> calculateEuclideanDistance [1, 2] [1] = FLT_MAX
   \<and> calculateCosineDistance [1, 2] [1] = FLT_MAX
   \<and> calculateManhattanDistance [1, 2] [1] = FLT_MAX
   \<and> calculateDotProductDistance [1, 2] [1] = FLT_MAX
   \<and> calculateDistance COSINE [1, 2] [1] = FLT_MAX"
proof -
  have h: "length [1, 2 :: real] \<noteq> length [1 :: real]" by simp
  show ?thesis
    using h distance_length_mismatch_sentinel [OF h, of COSINE] by simp
qed

section \<open>Properties of the vector store\<close>

lemma batch_valid_iff:
  "batch_valid db batch = (\<forall>(ident, v) \<in> set batch. length v = dimension db \<and> ident \<noteq> [])"
  by (induction batch) (auto simp: validateVector_def split: if_splits)

lemma length_fold_update_le:
  "length (fold (\<lambda>(ident, v). AList.update ident v) batch vs) \<le> length vs + length batch"
proof (induction batch arbitrary: vs)
  case Nil
  then show ?case by simp
next
  case (Cons p batch)
  obtain ident v where p: "p = (ident, v)" by (cases p)
  have "length (AList.update ident v vs) \<le> Suc (length vs)"
    by (induction vs) auto
  with Cons [of "AList.update ident v vs"] show ?case
    by (simp add: p)
qed

text \<open>
  C1, as stated, fails: the store \<open>full_store\<close> holds \<open>max_vectors = 1\<close> records, the
  identifier \<open>a\<close> is stored and not empty and the vector has the store's dimension, and
  yet \<^verbatim>\<open>insert\<close> rejects the call and leaves the store as it was. The capacity test
  \<^verbatim>\<open>vectors_.size() >= config_.max_vectors\<close> does not look at the identifier.
\<close>

theorem insert_upsert_at_capacity_rejected:
  "''a'' \<noteq> [] \<and> length [2 :: real] = dimension full_store
   \<and> map_of (vectors full_store) ''a'' = Some [1]
   \<and> size_db full_store = max_vectors (config full_store)
   \<and> insert_db ''a'' [2] full_store = (False, full_store)"
  by (simp add: insert_db_def full_store_def default_config_def size_db_def validateVector_def)

text \<open>
  C1, amended. \<^verbatim>\<open>insert\<close> is rejected exactly when the identifier is empty, or the
  vector's length differs from the store's dimension, or the store already holds
  \<open>max_vectors\<close> records or more (whether or not the identifier is present). An accepted
  call creates or overwrites the mapping of the identifier and changes nothing else; a
  rejected call leaves the store as it was.
\<close>

theorem insert_rejected_iff:
  "(\<not> fst (insert_db ident v db))
     = (ident = [] \<or> length v \<noteq> dimension db \<or> max_vectors (config db) \<le> size_db db)
   \<and> (fst (insert_db ident v db) \<longrightarrow>
        map_of (vectors (snd (insert_db ident v db))) = (map_of (vectors db))(ident \<mapsto> v)
        \<and> dimension (snd (insert_db ident v db)) = dimension db
        \<and> config (snd (insert_db ident v db)) = config db)
   \<and> (\<not> fst (insert_db ident v db) \<longrightarrow> snd (insert_db ident v db) = db)"
  by (auto simp: insert_db_def validateVector_def update_conv')

text \<open>
  Witness for C1: below capacity an insert of the stored identifier \<open>a\<close> is accepted and
  overwrites its vector, the size staying 1; at capacity an insert of \<open>b\<close> is rejected.
\<close>

theorem insert_rejected_iff_witness:
  "fst (insert_db ''a'' [2 :: real] (full_store\<lparr>config := default_config 1\<rparr>))
   \<and> map_of (vectors (snd (insert_db ''a'' [2] (full_store\<lparr>config := default_config 1\<rparr>)))) ''a''
       = Some [2]
   \<and> size_db (snd (insert_db ''a'' [2] (full_store\<lparr>config := default_config 1\<rparr>))) = 1
   \<and> \<not> fst (insert_db ''b'' [2 :: real] full_store)
   \<and> snd (insert_db ''b'' [2 :: real] full_store) = full_store"
  using insert_rejected_iff [of "''a''" "[2 :: real]" "full_store\<lparr>config := default_config 1\<rparr>"]
    insert_rejected_iff [of "''b''" "[2 :: real]" full_store]
  by (simp add: full_store_def default_config_def size_db_def insert_db_def validateVector_def)

text \<open>
  C3, as stated, fails: the batch \<open>{a}\<close> is valid, its only identifier is stored, the
  size after the insert in the specification's words is 1, which does not exceed
  \<open>max_vectors = 1\<close>, and yet \<^verbatim>\<open>insert_batch\<close> rejects it. The test is
  \<^verbatim>\<open>vectors_.size() + vectors.size() > config_.max_vectors\<close>.
\<close>

theorem insert_batch_present_ids_rejected:
  "batch_valid full_store [(''a'', [2])]
   \<and> set (map fst [(''a'', [2 :: real])]) \<subseteq> set (map fst (vectors full_store))
   \<and> post_insert_size full_store [(''a'', [2])] = 1
   \<and> max_vectors (config full_store) = 1
   \<and> insert_batch [(''a'', [2])] full_store = (False, full_store)"
  by (simp add: insert_batch_def full_store_def default_config_def size_db_def validateVector_def
      post_insert_size_def)

text \<open>
  C3, amended. \<^verbatim>\<open>insert_batch\<close> is rejected exactly when a pair of the batch has an
  empty identifier or a vector of the wrong length, or when the size of the store plus
  the size of the batch exceeds \<open>max_vectors\<close>: every batch entry counts, also one whose
  identifier is already stored.
\<close>

theorem insert_batch_rejected_iff:
  "(\<not> fst (insert_batch batch db))
     = ((\<exists>(ident, v) \<in> set batch. ident = [] \<or> length v \<noteq> dimension db)
        \<or> max_vectors (config db) < size_db db + length batch)"
  by (auto simp: insert_batch_def batch_valid_iff)

text \<open>
  C4. \<^verbatim>\<open>insert_batch\<close> is all-or-nothing: if a pair of the batch has an empty identifier
  or a vector whose length differs from the store's dimension, or the batch would exceed
  the capacity (in the specification's count of the size after the insert, or in the
  code's count \<^verbatim>\<open>vectors_.size() + vectors.size()\<close>), the call is rejected and the store
  after the call is the store before it.
\<close>

theorem insert_batch_atomic:
  assumes "(\<exists>(ident, v) \<in> set batch. ident = [] \<or> length v \<noteq> dimension db)
           \<or> max_vectors (config db) < post_insert_size db batch
           \<or> max_vectors (config db) < size_db db + length batch"
  shows "insert_batch batch db = (False, db)"
proof -
  have "post_insert_size db batch \<le> size_db db + length batch"
    by (simp add: post_insert_size_def size_db_def)
  with assms have "\<not> batch_valid db batch \<or> max_vectors (config db) < size_db db + length batch"
    by (auto simp: batch_valid_iff)
  then show ?thesis
    by (auto simp: insert_batch_def)
qed

text \<open>
  Witness for C3: a valid batch of one new identifier into the full store is rejected,
  \<open>1 + 1\<close> exceeding \<open>max_vectors = 1\<close>; the same batch into a store of the default
  capacity is accepted.
\<close>

theorem insert_batch_rejected_iff_witness:
  "\<not> fst (insert_batch [(''b'', [2 :: real])] full_store)
   \<and> fst (insert_batch [(''b'', [2 :: real])] (full_store\<lparr>config := default_config 1\<rparr>))"
  using insert_batch_rejected_iff [of "[(''b'', [2 :: real])]" full_store]
    insert_batch_rejected_iff [of "[(''b'', [2 :: real])]" "full_store\<lparr>config := default_config 1\<rparr>"]
  by (simp add: full_store_def default_config_def size_db_def)

text \<open>
  Witness for C4: a batch whose second pair has a vector of length 2 is rejected by a
  store of dimension 1, and the store is unchanged, the valid first pair included.
\<close>

theorem insert_batch_atomic_witness:
  "(''c'', [1 :: real, 2]) \<in> set [(''b'', [2]), (''c'', [1, 2])]
   \<and> length [1 :: real, 2] \<noteq> dimension (full_store\<lparr>config := default_config 1\<rparr>)
   \<and> insert_batch [(''b'', [2]), (''c'', [1, 2])] (full_store\<lparr>config := default_config 1\<rparr>)
       = (False, full_store\<lparr>config := default_config 1\<rparr>)"
proof -
  have h: "(\<exists>(ident, v) \<in> set [(''b'', [2 :: real]), (''c'', [1, 2])].
             ident = [] \<or> length v \<noteq> dimension (full_store\<lparr>config := default_config 1\<rparr>))
           \<or> max_vectors (config (full_store\<lparr>config := default_config 1\<rparr>))
               < post_insert_size (full_store\<lparr>config := default_config 1\<rparr>)
                   [(''b'', [2]), (''c'', [1, 2])]
           \<or> max_vectors (config (full_store\<lparr>config := default_config 1\<rparr>))
               < size_db (full_store\<lparr>config := default_config 1\<rparr>)
                 + length [(''b'', [2 :: real]), (''c'', [1, 2])]"
    by (simp add: full_store_def)
  show ?thesis
    using insert_batch_atomic [OF h] by (simp add: full_store_def)
qed

section \<open>Properties of the query engine\<close>

lemma pq_drain_append: "pq_drain pq results = results @ pq"
  by (induction pq arbitrary: results) simp_all

lemma length_pq_emplace: "length (pq_emplace r pq) = Suc (length pq)"
  by (simp add: pq_emplace_def)

lemma search_scan_zero:
  "vs \<noteq> [] \<Longrightarrow> search_scan m query 0 vs [] = Inl EmptyHeapTop"
  by (cases vs) (auto simp: pq_top_def)

lemma search_scan_pos:
  assumes "0 < k" and "length pq \<le> k"
  shows "\<exists>pq'. search_scan m query k vs pq = Inr pq'
               \<and> length pq' = min k (length pq + length vs)"
  using assms(2)
proof (induction vs arbitrary: pq)
  case Nil
  then show ?case by simp
next
  case (Cons p vs)
  obtain ident v where p: "p = (ident, v)" by (cases p)
  let ?r = "\<lparr>result_id = ident, distance = calculateDistance m query v, vector = v\<rparr>"
  show ?case
  proof (cases "length pq < k")
    case True
    then have "length (pq_emplace ?r pq) \<le> k"
      by (simp add: length_pq_emplace)
    from Cons.IH [OF this] True show ?thesis
      by (auto simp: p Let_def length_pq_emplace)
  next
    case False
    with Cons.prems have len: "length pq = k" by simp
    with assms(1) obtain t pq0 where pq: "pq = t # pq0"
      by (cases pq) auto
    have "length (pq_emplace ?r (pq_pop pq)) \<le> k"
      using len by (simp add: length_pq_emplace pq_pop_def pq)
    from Cons.IH [OF this] Cons.IH [OF Cons.prems] len show ?thesis
      by (auto simp: p Let_def pq pq_top_def pq_pop_def length_pq_emplace)
  qed
qed

text \<open>
  What holds of the top-k search for \<open>k \<ge> 1\<close>: on a non-empty store and a query of the
  store's dimension it returns \<open>min k size\<close> results in non-decreasing order of distance.
\<close>

lemma search_returns_pos:
  assumes "0 < k" and "validateVector db query" and "vectors db \<noteq> []"
  shows "\<exists>rs. search query k db = Inr rs \<and> length rs = min k (size_db db)
              \<and> sorted (map distance rs)"
proof -
  obtain pq where "search_scan (distance_metric (config db)) query k (vectors db) [] = Inr pq"
    and "length pq = min k (size_db db)"
    using search_scan_pos [OF assms(1), of "[]" "distance_metric (config db)" query "vectors db"]
    by (auto simp: size_db_def)
  then show ?thesis
    using assms(2,3) by (simp add: search_def pq_drain_append sorted_sort_key)
qed

lemma search_length_le:
  assumes "0 < k"
  shows "\<exists>rs. search query k db = Inr rs \<and> length rs \<le> k"
proof (cases "validateVector db query \<and> vectors db \<noteq> []")
  case True
  with search_returns_pos [OF assms, of db query] show ?thesis by auto
next
  case False
  then show ?thesis by (auto simp: search_def)
qed

text \<open>
  C9 fails on the code for \<open>k = 0\<close>: on every non-empty store and every query of the
  store's dimension, \<^verbatim>\<open>pq.size() < k\<close> is false for the first record, so the scan reads
  \<^verbatim>\<open>pq.top()\<close> of the empty queue. (For \<open>k \<ge> 1\<close> the top is read only from a queue of
  \<open>k\<close> elements and at most \<open>k\<close> results are returned: \<open>search_length_le\<close>.)
\<close>

theorem search_zero_reads_empty_heap:
  assumes "validateVector db query" and "vectors db \<noteq> []"
  shows "search query 0 db = Inl EmptyHeapTop"
  using assms by (simp add: search_def search_scan_zero)

text \<open>Witness for C9: the store \<open>scan_store\<close>, the query at the origin, \<open>k = 0\<close>.\<close>

theorem search_zero_reads_empty_heap_witness:
  "validateVector scan_store [0, 0, 0] \<and> vectors scan_store \<noteq> []
   \<and> search [0, 0, 0] 0 scan_store = Inl EmptyHeapTop"
proof -
  have h1: "validateVector scan_store [0, 0, 0]"
    by (simp add: validateVector_def scan_store_def)
  have h2: "vectors scan_store \<noteq> []"
    by (simp add: scan_store_def)
  show ?thesis
    using h1 h2 search_zero_reads_empty_heap [OF h1 h2] by simp
qed

lemma euclid_examples:
  "calculateEuclideanDistance [0, 0, 0] [0, 0, 0] = 0"
  "calculateEuclideanDistance [0, 0, 0] [1, 0, 0] = 1"
  "calculateEuclideanDistance [0, 0, 0] [2, 0, 0] = 2"
  by (simp_all add: calculateEuclideanDistance_def)

text \<open>
  C5 fails on the code: the queue is ordered by \<^verbatim>\<open>std::greater\<close>, so its top is the nearest
  of the \<open>k\<close> kept records, and a record is admitted only when it is nearer than that
  one, which it then replaces. With \<open>k = 2\<close> and records scanned at distances 0, 2, 1 the
  result is the records at distances 0 and 2; the record \<open>b\<close> at distance 1 is left out.
\<close>

theorem search_misses_second_nearest:
  "search [0, 0, 0] 2 scan_store
     = Inr [\<lparr>result_id = ''a'', distance = 0, vector = [0, 0, 0]\<rparr>,
            \<lparr>result_id = ''c'', distance = 2, vector = [2, 0, 0]\<rparr>]
   \<and> map_of (vectors scan_store) ''b'' = Some [1, 0, 0]
   \<and> calculateDistance (distance_metric (config scan_store)) [0, 0, 0] [1, 0, 0] = 1"
  by (simp add: search_def scan_store_def default_config_def validateVector_def Let_def
      pq_emplace_def pq_top_def pq_pop_def euclid_examples)

text \<open>
  The same store scanned in the order \<open>c, b, a\<close> (the reverse of the insertion order of the
  specification's scenario): the farthest record \<open>c\<close> is kept again and \<open>b\<close> is
  replaced by \<open>a\<close>.
\<close>

lemma search_reverse_insertion_order:
  "search [0, 0, 0] 2
     (scan_store\<lparr>vectors := [(''c'', [2, 0, 0]), (''b'', [1, 0, 0]), (''a'', [0, 0, 0])]\<rparr>)
     = Inr [\<lparr>result_id = ''a'', distance = 0, vector = [0, 0, 0]\<rparr>,
            \<lparr>result_id = ''c'', distance = 2, vector = [2, 0, 0]\<rparr>]"
  by (simp add: search_def scan_store_def default_config_def validateVector_def Let_def
      pq_emplace_def pq_top_def pq_pop_def euclid_examples)

lemma radius_scan_eq:
  "radius_scan m query radius vs
     = map (\<lambda>(ident, v). \<lparr>result_id = ident, distance = calculateDistance m query v, vector = v\<rparr>)
         (filter (\<lambda>(ident, v). calculateDistance m query v \<le> radius) vs)"
  by (induction vs) (auto simp: Let_def)

text \<open>
  C6. For every store, every query of the store's dimension and every radius,
  \<^verbatim>\<open>search_radius\<close> returns exactly the stored records whose distance to the query is
  at most the radius, each with that distance, in non-decreasing order of distance, and
  as many results as there are such records (no cap).
\<close>

theorem search_radius_exact:
  assumes "validateVector db query"
  shows "set (search_radius query radius db)
           = {\<lparr>result_id = ident,
                distance = calculateDistance (distance_metric (config db)) query v,
                vector = v\<rparr> | ident v.
              (ident, v) \<in> set (vectors db)
              \<and> calculateDistance (distance_metric (config db)) query v \<le> radius}
       \<and> sorted (map distance (search_radius query radius db))
       \<and> length (search_radius query radius db)
           = length (filter (\<lambda>(ident, v).
               calculateDistance (distance_metric (config db)) query v \<le> radius) (vectors db))"
  using assms
  by (auto simp: search_radius_def radius_scan_eq sorted_sort_key image_iff)

text \<open>
  Witness for C6, the specification's scenario: with radius 5 the result is \<open>p\<close> alone,
  \<open>q\<close> being at distance 7.
\<close>

theorem search_radius_exact_witness:
  "validateVector plane_store [0, 0]
   \<and> set (search_radius [0, 0] 5 plane_store)
       = {\<lparr>result_id = ''p'', distance = 0, vector = [0, 0]\<rparr>}
   \<and> sorted (map distance (search_radius [0, 0] 5 plane_store))
   \<and> length (search_radius [0, 0] 5 plane_store) = 1
   \<and> calculateDistance MANHATTAN [0, 0] [3, 4] = 7"
proof -
  have h: "validateVector plane_store [0, 0]"
    by (simp add: validateVector_def plane_store_def)
  have "search_radius [0, 0] 5 plane_store = [\<lparr>result_id = ''p'', distance = 0, vector = [0, 0]\<rparr>]"
    by (simp add: search_radius_def plane_store_def default_config_def validateVector_def
        calculateManhattanDistance_def)
  then show ?thesis
    using h search_radius_exact [OF h, of 5]
    by (simp add: calculateManhattanDistance_def)
qed

section \<open>Properties of the persistence codec\<close>

lemma length_le_bytes: "length (le_bytes k n) = k"
  by (induction k arbitrary: n) simp_all

lemma le_nat_le_bytes: "le_nat (le_bytes k n) = n mod 256 ^ k"
proof (induction k arbitrary: n)
  case 0
  then show ?case by simp
next
  case (Suc k)
  have "le_nat (le_bytes (Suc k) n) = n mod 256 + 256 * (n div 256 mod 256 ^ k)"
    by (simp add: Suc)
  also have "\<dots> = n mod (256 * 256 ^ k)"
    by (simp add: mod_mult2_eq)
  finally show ?case by simp
qed

lemma length_size_t_bytes: "length (size_t_bytes n) = 8"
  by (simp add: size_t_bytes_def length_le_bytes)

lemma le_nat_size_t_bytes: "n < 2 ^ 64 \<Longrightarrow> le_nat (size_t_bytes n) = n"
  by (simp add: size_t_bytes_def le_nat_le_bytes)

lemma length_float_bytes: "length (float_bytes w) = 4"
  by (simp add: float_bytes_def length_le_bytes)

lemma bytes_float_float_bytes: "bytes_float (float_bytes w) = w"
proof -
  have "unat w < 2 ^ 32"
    using unsigned_less [of w] by simp
  then have "unat w mod 256 ^ 4 = unat w" by simp
  then show ?thesis
    by (simp add: bytes_float_def float_bytes_def le_nat_le_bytes)
qed

lemma length_concat_float_bytes: "length (concat (map float_bytes v)) = 4 * length v"
  by (induction v) (simp_all add: length_float_bytes)

lemma floats_of_concat: "floats_of (length v) (concat (map float_bytes v) @ rest) = v"
  by (induction v) (simp_all add: length_float_bytes bytes_float_float_bytes)

lemma length_floats_of: "length (floats_of n bs) = n"
  by (induction n arbitrary: bs) simp_all

lemma stream_read_append:
  "length xs = n \<Longrightarrow>
   stream_read n \<lparr>pending = xs @ ys, good = True\<rparr> = (xs, \<lparr>pending = ys, good = True\<rparr>)"
  by (simp add: stream_read_def)

lemma read_size_t_append:
  "n < 2 ^ 64 \<Longrightarrow>
   read_size_t \<lparr>pending = size_t_bytes n @ ys, good = True\<rparr>
     = (Some n, \<lparr>pending = ys, good = True\<rparr>)"
  by (simp add: read_size_t_def stream_read_append length_size_t_bytes le_nat_size_t_bytes)

lemma write_records_layout:
  assumes "list_all (\<lambda>(ident, v). length v = d \<and> 4 * length v < 2 ^ 64) vs"
  shows "write_records d vs = Inr (concat (map record_layout vs))"
  using assms
proof (induction vs)
  case Nil
  then show ?case by simp
next
  case (Cons p vs)
  obtain ident v where p: "p = (ident, v)" by (cases p)
  from Cons.prems have v: "length v = d" "4 * d < 2 ^ 64" and rest: "write_records d vs = Inr (concat (map record_layout vs))"
    using Cons.IH by (auto simp: p)
  have "vector_byte_count d = 4 * d"
    using v(2) by (simp add: vector_byte_count_def mult.commute)
  then show ?case
    by (simp add: p rest record_layout_def v(1) length_concat_float_bytes)
qed

lemma load_records_layout:
  assumes "list_all (\<lambda>(ident, v). length ident < 2 ^ 64 \<and> length v = d \<and> 4 * length v < 2 ^ 64) vs"
  shows "load_records (length vs) d \<lparr>pending = concat (map record_layout vs) @ tail, good = True\<rparr> acc
           = Inr (\<lparr>pending = tail, good = True\<rparr>, fold (\<lambda>(ident, v). AList.update ident v) vs acc)"
  using assms
proof (induction vs arbitrary: acc)
  case Nil
  then show ?case by simp
next
  case (Cons p vs)
  obtain ident v where p: "p = (ident, v)" by (cases p)
  from Cons.prems have id: "length ident < 2 ^ 64" and v: "length v = d" "4 * d < 2 ^ 64"
    and rest: "list_all (\<lambda>(ident, v). length ident < 2 ^ 64 \<and> length v = d \<and> 4 * length v < 2 ^ 64) vs"
    by (auto simp: p)
  have vbc: "vector_byte_count d = 4 * d"
    using v(2) by (simp add: vector_byte_count_def mult.commute)
  let ?tail = "concat (map record_layout vs) @ tail"
  have r1: "read_size_t \<lparr>pending = record_layout (ident, v) @ concat (map record_layout vs) @ tail, good = True\<rparr>
              = (Some (length ident), \<lparr>pending = ident @ concat (map float_bytes v) @ ?tail, good = True\<rparr>)"
    using read_size_t_append [OF id, of "ident @ concat (map float_bytes v) @ ?tail"]
    by (simp add: record_layout_def)
  have r2: "stream_read (length ident) \<lparr>pending = ident @ concat (map float_bytes v) @ ?tail, good = True\<rparr>
              = (ident, \<lparr>pending = concat (map float_bytes v) @ ?tail, good = True\<rparr>)"
    by (rule stream_read_append) simp
  have r3: "stream_read (vector_byte_count d) \<lparr>pending = concat (map float_bytes v) @ ?tail, good = True\<rparr>
              = (concat (map float_bytes v), \<lparr>pending = ?tail, good = True\<rparr>)"
    by (rule stream_read_append) (simp add: vbc length_concat_float_bytes v(1))
  have fl: "floats_of d (concat (map float_bytes v)) = v"
    using floats_of_concat [of v "[]"] by (simp add: v(1))
  show ?case
    using Cons.IH [OF rest, of "AList.update ident v acc"]
    by (simp add: r1 r2 r3 length_concat_float_bytes v(1) fl p)
qed

lemma update_fresh: "k \<notin> fst ` set al \<Longrightarrow> AList.update k v al = al @ [(k, v)]"
  by (induction al) auto

lemma fold_update_distinct:
  "distinct (map fst (acc @ vs)) \<Longrightarrow>
   fold (\<lambda>(ident, v). AList.update ident v) vs acc = acc @ vs"
proof (induction vs arbitrary: acc)
  case Nil
  then show ?case by simp
next
  case (Cons p vs)
  obtain ident v where p: "p = (ident, v)" by (cases p)
  from Cons.prems have fresh: "ident \<notin> fst ` set acc" and d: "distinct (map fst ((acc @ [(ident, v)]) @ vs))"
    by (auto simp: p)
  show ?case
    using Cons.IH [OF d] by (simp add: p update_fresh [OF fresh])
qed

lemma save_layout:
  assumes inv: "store_inv db" and fits: "fits_size_t db" and w: "writable fs filepath"
  shows "save filepath fs db = Inr (True, fs\<lparr>files := (files fs)(filepath \<mapsto> file_layout db)\<rparr>)"
proof -
  have "list_all (\<lambda>(ident, v). length v = dimension db \<and> 4 * length v < 2 ^ 64) (vectors db)"
    using inv fits by (auto simp: store_inv_def fits_size_t_def list_all_iff)
  then have "write_records (dimension db) (vectors db) = Inr (concat (map record_layout (vectors db)))"
    by (rule write_records_layout)
  then show ?thesis
    using w by (simp add: save_def file_layout_def)
qed

lemma load_file_layout:
  assumes inv: "store_inv src" and fits: "fits_size_t src"
    and stored: "files fs filepath = Some (file_layout src)"
    and dim: "dimension db = dimension src"
  shows "load filepath fs db = Inr (True, db\<lparr>vectors := vectors src\<rparr>)"
proof -
  have all: "list_all (\<lambda>(ident, v). length ident < 2 ^ 64 \<and> length v = dimension src
               \<and> 4 * length v < 2 ^ 64) (vectors src)"
    using inv fits by (auto simp: store_inv_def fits_size_t_def list_all_iff)
  have d: "dimension src < 2 ^ 64" and cnt: "length (vectors src) < 2 ^ 64"
    using fits by (simp_all add: fits_size_t_def)
  have h1: "read_size_t \<lparr>pending = file_layout src, good = True\<rparr>
              = (Some (dimension src),
                 \<lparr>pending = size_t_bytes (size_db src) @ concat (map record_layout (vectors src)), good = True\<rparr>)"
    unfolding file_layout_def by (rule read_size_t_append [OF d])
  have h2: "read_size_t \<lparr>pending = size_t_bytes (size_db src) @ concat (map record_layout (vectors src)), good = True\<rparr>
              = (Some (length (vectors src)),
                 \<lparr>pending = concat (map record_layout (vectors src)) @ [], good = True\<rparr>)"
    using read_size_t_append [OF cnt, of "concat (map record_layout (vectors src))"]
    by (simp add: size_db_def)
  have h3: "load_records (length (vectors src)) (dimension src)
              \<lparr>pending = concat (map record_layout (vectors src)) @ [], good = True\<rparr> []
            = Inr (\<lparr>pending = [], good = True\<rparr>, vectors src)"
    using load_records_layout [OF all, of "[]" "[]"] fold_update_distinct [of "[]" "vectors src"] inv
    by (simp add: store_inv_def)
  show ?thesis
    by (simp add: load_def stored h1 h2 h3 dim del: append_Nil2)
qed

lemma file_layout_header:
  assumes "dimension src < 2 ^ 64"
  shows "8 \<le> length (file_layout src) \<and> le_nat (take 8 (file_layout src)) = dimension src"
  using assms by (simp add: file_layout_def length_size_t_bytes le_nat_size_t_bytes)

lemma two_records_ok: "store_inv two_records \<and> fits_size_t two_records"
  by (simp add: store_inv_def fits_size_t_def two_records_def)

lemma load_truncated:
  "load ''store.bin'' (disk truncated_file) word_store
     = Inr (False, word_store\<lparr>vectors := [(''x'', [0])]\<rparr>)"
proof -
  have r1: "read_size_t \<lparr>pending = truncated_file, good = True\<rparr>
              = (Some 1, \<lparr>pending = size_t_bytes 1 @ size_t_bytes 1 @ ''x'', good = True\<rparr>)"
    unfolding truncated_file_def by (rule read_size_t_append) simp
  have r2: "read_size_t \<lparr>pending = size_t_bytes 1 @ size_t_bytes 1 @ ''x'', good = True\<rparr>
              = (Some 1, \<lparr>pending = size_t_bytes 1 @ ''x'', good = True\<rparr>)"
    by (rule read_size_t_append) simp
  have r3: "read_size_t \<lparr>pending = size_t_bytes 1 @ ''x'', good = True\<rparr>
              = (Some 1, \<lparr>pending = ''x'', good = True\<rparr>)"
    by (rule read_size_t_append) simp
  have r4: "stream_read 1 \<lparr>pending = ''x'', good = True\<rparr> = (''x'', \<lparr>pending = [], good = True\<rparr>)"
    by (simp add: stream_read_def)
  have r5: "stream_read (vector_byte_count 1) \<lparr>pending = [], good = True\<rparr>
              = ([], \<lparr>pending = [], good = False\<rparr>)"
    by (simp add: stream_read_def vector_byte_count_def)
  have z: "replicate 4 (CHR 0x00) = [CHR 0x00, CHR 0x00, CHR 0x00, CHR 0x00]"
    by (simp add: numeral_eq_Suc)
  have lr: "load_records 1 1 \<lparr>pending = size_t_bytes 1 @ ''x'', good = True\<rparr> []
              = Inr (\<lparr>pending = [], good = False\<rparr>, [(''x'', [0])])"
    using r3 r4 r5 by (simp add: z bytes_float_def)
  show ?thesis
    using r1 r2 lr by (simp add: load_def disk_def word_store_def)
qed

subsection \<open>The store invariant and the capacity bound\<close>

lemma length_update_le: "length (AList.update k v al) \<le> Suc (length al)"
  by (induction al) auto

lemma list_all_update:
  "list_all P al \<Longrightarrow> P (k, v) \<Longrightarrow> list_all P (AList.update k v al)"
  by (induction al) auto

lemma fold_update_inv:
  assumes "distinct (map fst vs)" and "list_all P vs" and "list_all P batch"
  shows "distinct (map fst (fold (\<lambda>(ident, v). AList.update ident v) batch vs))
       \<and> list_all P (fold (\<lambda>(ident, v). AList.update ident v) batch vs)"
  using assms
proof (induction batch arbitrary: vs)
  case Nil
  then show ?case by simp
next
  case (Cons p batch)
  obtain ident v where p: "p = (ident, v)" by (cases p)
  from Cons.prems have "distinct (map fst (AList.update ident v vs))"
    and "list_all P (AList.update ident v vs)" and "list_all P batch"
    by (simp_all add: p distinct_update list_all_update)
  from Cons.IH [OF this] show ?case by (simp add: p)
qed

lemma load_records_inv:
  assumes "load_records n d s vs = Inr (s', vs')"
    and "distinct (map fst vs)" and "list_all (\<lambda>(ident, v). length v = d) vs"
  shows "distinct (map fst vs') \<and> list_all (\<lambda>(ident, v). length v = d) vs'"
  using assms
proof (induction n arbitrary: s vs)
  case 0
  then show ?case by simp
next
  case (Suc n)
  from Suc.prems(1) obtain s3 ident v where
    step: "load_records n d s3 (AList.update ident v vs) = Inr (s', vs')" and v: "length v = d"
    by (auto simp: length_floats_of split: prod.splits option.splits)
  have "distinct (map fst (AList.update ident v vs))"
    using Suc.prems(2) by (simp add: distinct_update)
  moreover have "list_all (\<lambda>(ident, v). length v = d) (AList.update ident v vs)"
    using Suc.prems(3) v by (simp add: list_all_update)
  ultimately show ?case
    using Suc.IH [OF step] by simp
qed

lemma store_inv_new: "VectorDatabase_new d cfg = Inr db \<Longrightarrow> store_inv db"
  by (auto simp: VectorDatabase_new_def store_inv_def split: if_splits)

lemma store_inv_preserved:
  assumes "store_inv db"
  shows "store_inv (snd (insert_db ident v db))"
    and "store_inv (snd (insert_batch batch db))"
    and "store_inv (snd (remove_db ident db))"
    and "store_inv (clear_db db)"
    and "load filepath fs db = Inr (ok, db') \<Longrightarrow> store_inv db'"
proof -
  show "store_inv (snd (insert_db ident v db))"
    using assms
    by (auto simp: insert_db_def store_inv_def validateVector_def distinct_update list_all_update)
  show "store_inv (snd (insert_batch batch db))"
  proof (cases "fst (insert_batch batch db)")
    case True
    then have "list_all (\<lambda>(ident, v). length v = dimension db) batch"
      by (auto simp: insert_batch_def batch_valid_iff list_all_iff split: if_splits)
    with assms True fold_update_inv [of "vectors db" "\<lambda>(ident, v). length v = dimension db" batch]
    show ?thesis
      by (auto simp: insert_batch_def store_inv_def split: if_splits)
  next
    case False
    with assms show ?thesis
      by (auto simp: insert_batch_def split: if_splits)
  qed
  show "store_inv (snd (remove_db ident db))"
  proof -
    have "distinct (map fst (AList.delete ident (vectors db)))"
      using assms by (simp add: store_inv_def distinct_delete)
    moreover have "list_all (\<lambda>(ident, v). length v = dimension db) (AList.delete ident (vectors db))"
      using assms by (auto simp: store_inv_def AList.delete_eq list_all_iff)
    ultimately show ?thesis
      using assms by (auto simp: remove_db_def store_inv_def split: option.splits)
  qed
  show "store_inv (clear_db db)"
    using assms by (simp add: clear_db_def store_inv_def)
  show "store_inv db'" if "load filepath fs db = Inr (ok, db')"
  proof (cases "db' = db")
    case True
    with assms show ?thesis by simp
  next
    case False
    with that obtain n s s' vs where lr: "load_records n (dimension db) s [] = Inr (s', vs)"
      and db': "db' = db\<lparr>vectors := vs\<rparr>"
      by (auto simp: load_def split: option.splits prod.splits if_splits sum.splits)
    from load_records_inv [OF lr] assms show ?thesis
      by (simp add: db' store_inv_def)
  qed
qed

lemma capacity_preserved_by_mutators:
  assumes "size_db db \<le> max_vectors (config db)"
  shows "size_db (snd (insert_db ident v db)) \<le> max_vectors (config (snd (insert_db ident v db)))"
    and "size_db (snd (insert_batch batch db)) \<le> max_vectors (config (snd (insert_batch batch db)))"
    and "size_db (snd (remove_db ident db)) \<le> max_vectors (config (snd (remove_db ident db)))"
    and "size_db (clear_db db) \<le> max_vectors (config (clear_db db))"
proof -
  show "size_db (snd (insert_db ident v db)) \<le> max_vectors (config (snd (insert_db ident v db)))"
    using assms length_update_le [of ident v "vectors db"]
    by (auto simp: insert_db_def size_db_def)
  show "size_db (snd (insert_batch batch db)) \<le> max_vectors (config (snd (insert_batch batch db)))"
    using assms length_fold_update_le [of batch "vectors db"]
    by (auto simp: insert_batch_def size_db_def)
  show "size_db (snd (remove_db ident db)) \<le> max_vectors (config (snd (remove_db ident db)))"
    using assms length_delete_le [of ident "vectors db"]
    by (auto simp: remove_db_def size_db_def split: option.splits)
  show "size_db (clear_db db) \<le> max_vectors (config (clear_db db))"
    by (simp add: clear_db_def size_db_def)
qed

subsection \<open>Save and load\<close>

text \<open>
  C7. Round trip: for every store (satisfying the store invariant, with sizes that fit
  \<^verbatim>\<open>size_t\<close>) whose \<^verbatim>\<open>save\<close> succeeds, a \<^verbatim>\<open>load\<close> of the saved file into a freshly
  constructed store of the same dimension, under any configuration, succeeds and yields
  the same records: the same map from identifiers to vectors, every component equal bit
  for bit, and the same size.
\<close>

theorem save_load_roundtrip:
  assumes inv: "store_inv db" and fits: "fits_size_t db"
    and saved: "save filepath fs db = Inr (True, fs')"
    and fresh: "VectorDatabase_new (dimension db) cfg = Inr fresh"
  shows "load filepath fs' fresh = Inr (True, fresh\<lparr>vectors := vectors db\<rparr>)
       \<and> map_of (vectors (fresh\<lparr>vectors := vectors db\<rparr>)) = map_of (vectors db)
       \<and> size_db (fresh\<lparr>vectors := vectors db\<rparr>) = size_db db"
proof -
  from saved have w: "writable fs filepath"
    by (auto simp: save_def split: if_splits)
  from saved save_layout [OF inv fits w]
  have stored: "files fs' filepath = Some (file_layout db)"
    by auto
  from fresh have "dimension fresh = dimension db"
    by (auto simp: VectorDatabase_new_def split: if_splits)
  from load_file_layout [OF inv fits stored this] show ?thesis
    by (simp add: size_db_def)
qed

text \<open>
  Witness for C7: the two-record store is saved to an empty disk and loaded into a new
  store of dimension 1 with another configuration.
\<close>

theorem save_load_roundtrip_witness:
  "store_inv two_records \<and> fits_size_t two_records
   \<and> save ''store.bin'' (disk []) two_records = Inr (True, disk (file_layout two_records))
   \<and> VectorDatabase_new (dimension two_records) (default_config 4)
       = Inr \<lparr>dimension = 1, config = default_config 4, vectors = []\<rparr>
   \<and> load ''store.bin'' (disk (file_layout two_records))
         \<lparr>dimension = 1, config = default_config 4, vectors = []\<rparr>
       = Inr (True, \<lparr>dimension = 1, config = default_config 4,
                     vectors = [(''a'', [0x3F800000]), (''b'', [0x40000000])]\<rparr>)"
proof -
  have ok: "store_inv two_records" "fits_size_t two_records"
    using two_records_ok by simp_all
  have sv: "save ''store.bin'' (disk []) two_records = Inr (True, disk (file_layout two_records))"
    using save_layout [OF ok, of "disk []" "''store.bin''"] by (simp add: disk_def)
  have nw: "VectorDatabase_new (dimension two_records) (default_config 4)
              = Inr \<lparr>dimension = 1, config = default_config 4, vectors = []\<rparr>"
    by (simp add: VectorDatabase_new_def two_records_def)
  show ?thesis
    using ok sv nw save_load_roundtrip [OF ok sv nw]
    by (simp add: two_records_def)
qed

text \<open>
  C2, as stated, fails: the file records the store's dimension and one record and ends
  after the identifier \<open>x\<close> of that record. The read of the vector fails, \<^verbatim>\<open>load\<close>
  returns false, and the store, cleared before the loop, holds \<open>x\<close> with a zero
  vector instead of \<open>z\<close>.
\<close>

theorem load_read_failure_changes_store:
  "files (disk truncated_file) ''store.bin'' = Some truncated_file
   \<and> vectors word_store = [(''z'', [0x3F800000])]
   \<and> load ''store.bin'' (disk truncated_file) word_store
       = Inr (False, word_store\<lparr>vectors := [(''x'', [0])]\<rparr>)
   \<and> word_store\<lparr>vectors := [(''x'', [0])]\<rparr> \<noteq> word_store"
  using load_truncated by (simp add: disk_def word_store_def)

text \<open>
  C2, amended. Whenever \<^verbatim>\<open>load\<close> fails because the file cannot be opened, or because
  the dimension recorded in the file's first 8 bytes differs from the store's dimension,
  it returns false and the store after the call is the store before it.
\<close>

theorem load_failure_store_unchanged:
  assumes "files fs filepath = None
           \<or> (\<exists>content. files fs filepath = Some content \<and> 8 \<le> length content
                \<and> le_nat (take 8 content) \<noteq> dimension db)"
  shows "load filepath fs db = Inr (False, db)"
  using assms by (auto simp: load_def read_size_t_def stream_read_def)

text \<open>
  Witness for C2: a path that is not on the disk, and a file of dimension 1 loaded into a
  store of dimension 2.
\<close>

theorem load_failure_store_unchanged_witness:
  "files (disk []) ''missing.bin'' = None
   \<and> load ''missing.bin'' (disk []) word_store = Inr (False, word_store)
   \<and> files (disk (file_layout two_records)) ''store.bin'' = Some (file_layout two_records)
   \<and> le_nat (take 8 (file_layout two_records)) = 1
   \<and> dimension wide_store = 2
   \<and> load ''store.bin'' (disk (file_layout two_records)) wide_store = Inr (False, wide_store)"
proof -
  have h1: "files (disk []) ''missing.bin'' = None"
    by (simp add: disk_def)
  have hd: "8 \<le> length (file_layout two_records) \<and> le_nat (take 8 (file_layout two_records)) = 1"
    using file_layout_header [of two_records] by (simp add: two_records_def)
  have h2: "files (disk (file_layout two_records)) ''store.bin'' = Some (file_layout two_records)"
    by (simp add: disk_def)
  have h3: "\<exists>content. files (disk (file_layout two_records)) ''store.bin'' = Some content
              \<and> 8 \<le> length content \<and> le_nat (take 8 content) \<noteq> dimension wide_store"
    using hd h2 by (simp add: wide_store_def)
  show ?thesis
    using h1 h2 hd load_failure_store_unchanged [OF disjI1, OF h1, of word_store]
      load_failure_store_unchanged [OF disjI2, OF h3]
    by (simp add: wide_store_def)
qed

text \<open>
  C10 fails on the code for \<^verbatim>\<open>load\<close>: the store \<open>word_store\<close> has \<open>max_vectors = 1\<close> and
  satisfies the bound; a load of the file that records the two records \<open>a\<close> and \<open>b\<close>
  succeeds and leaves it with 2 records. \<^verbatim>\<open>load\<close> never reads \<^verbatim>\<open>config_.max_vectors\<close>.
  (\<^verbatim>\<open>insert\<close>, \<^verbatim>\<open>insert_batch\<close>, \<^verbatim>\<open>remove\<close> and \<^verbatim>\<open>clear\<close> keep the bound:
  \<open>capacity_preserved_by_mutators\<close>.)
\<close>

theorem load_exceeds_capacity:
  "size_db word_store \<le> max_vectors (config word_store)
   \<and> load ''store.bin'' (disk (file_layout two_records)) word_store
       = Inr (True, word_store\<lparr>vectors := [(''a'', [0x3F800000]), (''b'', [0x40000000])]\<rparr>)
   \<and> size_db (word_store\<lparr>vectors := [(''a'', [0x3F800000]), (''b'', [0x40000000])]\<rparr>) = 2
   \<and> max_vectors (config (word_store\<lparr>vectors := [(''a'', [0x3F800000]), (''b'', [0x40000000])]\<rparr>)) = 1"
proof -
  have "load ''store.bin'' (disk (file_layout two_records)) word_store
          = Inr (True, word_store\<lparr>vectors := vectors two_records\<rparr>)"
    using two_records_ok
    by (intro load_file_layout) (simp_all add: disk_def word_store_def two_records_def)
  then show ?thesis
    by (simp add: two_records_def word_store_def size_db_def default_config_def)
qed

end
